theory Spec2Isabelle
  imports Main "HOL-Library.Sublist" "HOL-Library.AList"
begin

section \<open>Strings\<close>

text \<open>
  A script string is modelled as a \<^typ>\<open>string\<close>: a list of code units, here the code
  units U+0000 to U+00FF. The string methods used by \<^verbatim>\<open>src/index.tsx\<close> are modelled on
  that range.
\<close>

definition LF :: char where "LF = CHR 0x0A"
definition CR :: char where "CR = CHR 0x0D"
definition DQ :: char where "DQ = CHR 0x22"
definition COMMA :: char where "COMMA = CHR 0x2C"

text \<open>
  \<^verbatim>\<open>String.prototype.trim\<close> strips white space and line terminators from both ends:
  TAB, LF, VT, FF, CR, SPACE and NO-BREAK SPACE are the ones below U+0100.
\<close>

definition isWhiteSpace :: "char \<Rightarrow> bool" where
  "isWhiteSpace c \<longleftrightarrow>
     c \<in> set [CHR 0x09, CHR 0x0A, CHR 0x0B, CHR 0x0C, CHR 0x0D, CHR 0x20, CHR 0xA0]"

definition trim :: "string \<Rightarrow> string" where
  "trim s = rev (dropWhile isWhiteSpace (rev (dropWhile isWhiteSpace s)))"

text \<open>
  \<^verbatim>\<open>String.prototype.toLowerCase\<close>: below U+0100 the letters with a lower-case partner
  are A to Z and U+00C0 to U+00DE without the multiplication sign U+00D7; the partner is
  32 code units higher.
\<close>

definition lowerChar :: "char \<Rightarrow> char" where
  "lowerChar c =
     (let n = (of_char c :: nat) in
      if (65 \<le> n \<and> n \<le> 90) \<or> (192 \<le> n \<and> n \<le> 222 \<and> n \<noteq> 215)
      then char_of (n + 32) else c)"

definition toLowerCase :: "string \<Rightarrow> string" where
  "toLowerCase s = map lowerChar s"

text \<open>\<^verbatim>\<open>s.includes(t)\<close>: \<open>t\<close> occurs in \<open>s\<close> as a contiguous run of code units.\<close>

fun includes_js :: "string \<Rightarrow> string \<Rightarrow> bool" where
  "includes_js [] t = (t = [])"
| "includes_js (c # cs) t = (prefix t (c # cs) \<or> includes_js cs t)"

text \<open>
  \<^verbatim>\<open>text.split(/\r?\n/)\<close>: the input is cut at every LF, and a CR standing directly before
  that LF belongs to the separator. The result always has at least one piece.
\<close>

fun push_char :: "char \<Rightarrow> string list \<Rightarrow> string list" where
  "push_char c [] = [[c]]"
| "push_char c (l # ls) = (c # l) # ls"

fun split_lines :: "string \<Rightarrow> string list" where
  "split_lines [] = [[]]"
| "split_lines [c] = (if c = LF then [[], []] else [[c]])"
| "split_lines (c # d # ds) =
     (if c = LF then [] # split_lines (d # ds)
      else if c = CR \<and> d = LF then [] # split_lines ds
      else push_char c (split_lines (d # ds)))"

text \<open>\<^verbatim>\<open>xs.join(sep)\<close> on an array of strings.\<close>

fun join :: "string \<Rightarrow> string list \<Rightarrow> string" where
  "join sep [] = []"
| "join sep [x] = x"
| "join sep (x # y # ys) = x @ sep @ join sep (y # ys)"

text \<open>\<^verbatim>\<open>s.replace(/"/g, '""')\<close>: every double quote is replaced by two.\<close>

definition replace_quotes :: "string \<Rightarrow> string" where
  "replace_quotes s = concat (map (\<lambda>c. if c = DQ then [DQ, DQ] else [c]) s)"


section \<open>Data model\<close>

text \<open>The objects of the response array: \<^verbatim>\<open>{ original_text, category, reply }\<close>.\<close>

record ClassificationResult =
  original_text :: string
  category :: string
  reply :: string

text \<open>
  What \<^verbatim>\<open>JSON.parse\<close> returns, as far as the handlers tell values apart: an array, whose
  elements are \<^verbatim>\<open>null\<close> (\<open>None\<close>) or result objects, or a value that is not an array and
  has no \<^verbatim>\<open>length\<close> (\<^verbatim>\<open>null\<close>, a boolean, a number, an object without a member of that
  name). An element that is not \<^verbatim>\<open>null\<close> is taken to be an object with the three
  string properties that the response schema asks for. The state variable
  \<^verbatim>\<open>batchData\<close> holds such a value.
\<close>

datatype json = Array "ClassificationResult option list" | NotArray

text \<open>An array of result objects.\<close>

definition array_of :: "ClassificationResult list \<Rightarrow> json" where
  "array_of rows = Array (map Some rows)"

text \<open>
  The elements of a value, where it is an array of result objects. Where it is not,
  calling \<^verbatim>\<open>forEach\<close>, \<^verbatim>\<open>filter\<close> or \<^verbatim>\<open>map\<close> on it, or reading a property of a
  \<^verbatim>\<open>null\<close> element inside the callback, throws a \<^verbatim>\<open>TypeError\<close>.
\<close>

fun rows_of :: "json \<Rightarrow> ClassificationResult list option" where
  "rows_of (Array items) = those items"
| "rows_of NotArray = None"

text \<open>
  A number of the script as far as \<^verbatim>\<open>calculateStats\<close> can produce one: a natural number
  or \<^verbatim>\<open>NaN\<close>.
\<close>

datatype jsnum = Num nat | NaN

text \<open>An entry of \<^verbatim>\<open>stats\<close>: \<^verbatim>\<open>{ category: string, count: number }\<close>.\<close>

record CategoryCount =
  stat_category :: string
  count :: jsnum

text \<open>The keys of \<^verbatim>\<open>CATEGORY_DEFINITIONS\<close>, in the order they are written.\<close>

definition CATEGORIES :: "string list" where
  "CATEGORIES =
     [''praise'', ''support'', ''constructive_criticism'', ''hate_abuse'', ''threat'',
      ''emotional'', ''spam_irrelevant'', ''question_suggestion'']"

definition SAMPLE_COMMENTS :: "string list" where
  "SAMPLE_COMMENTS =
     [''This video changed my life, thank you so much!'',
      ''Keep going, you're doing great!'',
      ''The animation was okay but the voiceover felt off.'',
      ''I didn't like the color scheme, it hurts my eyes.'',
      ''You are garbage and nobody likes you.'',
      ''This is the worst app ever, delete your channel.'',
      ''I will find you and make you pay.'',
      ''This reminds me of when I was a kid, good times.'',
      ''Follow me for free iphone.'',
      ''Can you make a video about Python basics?'',
      ''Great content but the lighting is a bit dark.'',
      ''I love this! When is the next part?'',
      ''Useless video, waste of time.'',
      ''My order hasn't arrived, please help.'',
      ''Check out my profile for easy money.'']"


section \<open>Classification client\<close>

text \<open>
  \<^verbatim>\<open>ai.models.generateContent\<close> either rejects or resolves with a response whose
  \<^verbatim>\<open>text\<close> is a string or is missing.
\<close>

datatype response = Rejected | Resolved "string option"

datatype error = ServiceError | SyntaxError | TypeError

text \<open>
  \<^verbatim>\<open>processCommentWithGemini\<close> (lines 99 to 155). The service is a function from the batch
  embedded in the prompt to its response; \<^verbatim>\<open>JSON.parse\<close> is a partial function, undefined
  where it throws; what it returns is returned to the caller as it is, whatever its
  shape. The last argument is the trace of the batches sent so far; the call adds its own.
\<close>

definition processCommentWithGemini ::
  "(string \<rightharpoonup> json) \<Rightarrow> (string list \<Rightarrow> response) \<Rightarrow> string list \<Rightarrow>
   string list list \<Rightarrow> (error + json) \<times> string list list" where
  "processCommentWithGemini parse generateContent comments sent =
     (let response = generateContent comments;
          sent' = sent @ [comments]
      in case response of
           Rejected \<Rightarrow> (Inl ServiceError, sent')
         | Resolved text \<Rightarrow>
             (case text of
                None \<Rightarrow> (Inr (Array []), sent')
              | Some t \<Rightarrow>
                  if t = [] then (Inr (Array []), sent')
                  else (case parse t of
                          None \<Rightarrow> (Inl SyntaxError, sent')
                        | Some results \<Rightarrow> (Inr results, sent'))))"


section \<open>Plain objects used as counters\<close>

text \<open>
  \<^verbatim>\<open>counts\<close> in \<^verbatim>\<open>calculateStats\<close> is a plain object \<^verbatim>\<open>{}\<close>. Its own properties are kept
  in creation order. Reading a key it does not own falls through to \<^verbatim>\<open>Object.prototype\<close>,
  which defines the keys below (functions, and the accessor \<^verbatim>\<open>__proto__\<close>).
\<close>

type_synonym counts = "(string \<times> jsnum) list"

definition object_prototype_keys :: "string list" where
  "object_prototype_keys =
     [''constructor'', ''__defineGetter__'', ''__defineSetter__'', ''hasOwnProperty'',
      ''__lookupGetter__'', ''__lookupSetter__'', ''isPrototypeOf'', ''propertyIsEnumerable'',
      ''toString'', ''valueOf'', ''__proto__'', ''toLocaleString'']"

datatype jsval = Undefined | Number jsnum | Inherited

text \<open>\<^verbatim>\<open>counts[k]\<close> as a read.\<close>

definition get_prop :: "counts \<Rightarrow> string \<Rightarrow> jsval" where
  "get_prop counts k =
     (case map_of counts k of
        Some n \<Rightarrow> Number n
      | None \<Rightarrow> if k \<in> set object_prototype_keys then Inherited else Undefined)"

text \<open>
  \<^verbatim>\<open>counts[k] = v\<close> with a number \<open>v\<close>: an own property is overwritten in place, a new one
  is created last. The key \<^verbatim>\<open>__proto__\<close> reaches the setter of \<^verbatim>\<open>Object.prototype\<close>,
  which ignores a value that is neither an object nor null, so nothing is stored.
\<close>

definition set_prop :: "counts \<Rightarrow> string \<Rightarrow> jsnum \<Rightarrow> counts" where
  "set_prop counts k v = (if k = ''__proto__'' then counts else AList.update k v counts)"

text \<open>
  The value stored by \<^verbatim>\<open>counts[k]++\<close>: the old value converted to a number, plus one.
  A function or an object converts to \<^verbatim>\<open>NaN\<close>.
\<close>

fun increment :: "jsval \<Rightarrow> jsnum" where
  "increment (Number (Num n)) = Num (Suc n)"
| "increment (Number NaN) = NaN"
| "increment Inherited = NaN"
| "increment Undefined = NaN"

text \<open>
  The body of \<^verbatim>\<open>data.forEach\<close> (lines 310 to 316). In the second branch \<^verbatim>\<open>counts[k]\<close> is
  \<^verbatim>\<open>undefined\<close>, so \<^verbatim>\<open>(counts[k] || 0) + 1\<close> is 1.
\<close>

definition count_item :: "counts \<Rightarrow> ClassificationResult \<Rightarrow> counts" where
  "count_item counts item =
     (let k = category item in
      if get_prop counts k \<noteq> Undefined
      then set_prop counts k (increment (get_prop counts k))
      else set_prop counts k (Num 1))"

text \<open>
  \<^verbatim>\<open>Object.keys\<close>: the own keys that are array indices (canonical decimal numerals below
  \<open>2\<^sup>3\<^sup>2 - 1\<close>) come first, in ascending numeric order; the other keys follow in creation
  order.
\<close>

definition is_digit :: "char \<Rightarrow> bool" where
  "is_digit c \<longleftrightarrow> 48 \<le> (of_char c :: int) \<and> (of_char c :: int) \<le> 57"

definition decimal :: "string \<Rightarrow> int" where
  "decimal k = foldl (\<lambda>n c. 10 * n + ((of_char c :: int) - 48)) 0 k"

definition is_array_index :: "string \<Rightarrow> bool" where
  "is_array_index k \<longleftrightarrow>
     k \<noteq> [] \<and> list_all is_digit k \<and> (if hd k = CHR ''0'' then k = ''0'' else True) \<and>
     decimal k < 4294967295"

definition object_keys :: "counts \<Rightarrow> string list" where
  "object_keys counts =
     (let ks = map fst counts in
      sort_key decimal (filter is_array_index ks) @ filter (\<lambda>k. \<not> is_array_index k) ks)"

text \<open>\<^verbatim>\<open>counts[k]\<close> for an own key \<open>k\<close>, as \<^verbatim>\<open>Object.keys(counts).map\<close> reads it.\<close>

definition own_value :: "counts \<Rightarrow> string \<Rightarrow> jsnum" where
  "own_value counts k = (case map_of counts k of Some n \<Rightarrow> n | None \<Rightarrow> NaN)"

text \<open>\<^verbatim>\<open>x.count > 0\<close>; a comparison with \<^verbatim>\<open>NaN\<close> is false.\<close>

fun gt_zero :: "jsnum \<Rightarrow> bool" where
  "gt_zero (Num n) = (0 < n)"
| "gt_zero NaN = False"

text \<open>
  \<^verbatim>\<open>Array.prototype.sort\<close> with a comparator is a stable sort: an element is placed before
  the first later element it does not compare greater than. A comparator result of
  \<^verbatim>\<open>NaN\<close> counts as 0.
\<close>

fun insert_sorted :: "('a \<Rightarrow> 'a \<Rightarrow> int) \<Rightarrow> 'a \<Rightarrow> 'a list \<Rightarrow> 'a list" where
  "insert_sorted cmp x [] = [x]"
| "insert_sorted cmp x (y # ys) =
     (if cmp x y \<le> 0 then x # y # ys else y # insert_sorted cmp x ys)"

definition sort_js :: "('a \<Rightarrow> 'a \<Rightarrow> int) \<Rightarrow> 'a list \<Rightarrow> 'a list" where
  "sort_js cmp xs = foldr (insert_sorted cmp) xs []"

text \<open>The comparator \<^verbatim>\<open>(a, b) => b.count - a.count\<close>.\<close>

definition compare_desc :: "CategoryCount \<Rightarrow> CategoryCount \<Rightarrow> int" where
  "compare_desc a b =
     (case (count b, count a) of
        (Num m, Num n) \<Rightarrow> int m - int n
      | _ \<Rightarrow> 0)"

text \<open>\<^verbatim>\<open>calculateStats\<close> (lines 307 to 320); the result is the argument of \<^verbatim>\<open>setStats\<close>.\<close>

definition calculateStats :: "ClassificationResult list \<Rightarrow> CategoryCount list" where
  "calculateStats data =
     (let counts0 = foldl (\<lambda>counts c. set_prop counts c (Num 0)) [] CATEGORIES;
          counts = foldl count_item counts0 data;
          statsArray =
            filter (\<lambda>x. gt_zero (count x))
              (map (\<lambda>k. \<lparr>stat_category = k, count = own_value counts k\<rparr>) (object_keys counts))
      in sort_js compare_desc statsArray)"

text \<open>
  \<^verbatim>\<open>calculateStats\<close> called on whatever the client returned. On a value that is not an
  array \<^verbatim>\<open>data.forEach\<close> is not a function, and on a \<^verbatim>\<open>null\<close> element
  \<^verbatim>\<open>item.category\<close> cannot be read: a \<^verbatim>\<open>TypeError\<close> is thrown before \<^verbatim>\<open>setStats\<close>.
\<close>

definition calculateStats_of :: "json \<Rightarrow> error + CategoryCount list" where
  "calculateStats_of data =
     (case rows_of data of
        None \<Rightarrow> Inl TypeError
      | Some rows \<Rightarrow> Inr (calculateStats rows))"


section \<open>Application state and handlers\<close>

datatype tab = Single | Batch

text \<open>
  The state of the \<^verbatim>\<open>App\<close> component (lines 275 to 288), with three traces of effects:
  the alerts raised, the batches sent to the service, and the files handed to
  \<^verbatim>\<open>downloadFile\<close> (name, content, type).
\<close>

record AppState =
  activeTab :: tab
  showInfo :: bool
  singleInput :: string
  singleResult :: "ClassificationResult option"
  singleLoading :: bool
  batchData :: json
  batchLoading :: bool
  filterCategory :: string
  stats :: "CategoryCount list"
  alerts :: "string list"
  sent :: "string list list"
  downloads :: "(string \<times> string \<times> string) list"

text \<open>
  \<^verbatim>\<open>handleSingleAnalyze\<close> (lines 291 to 305), from the click to the end of \<^verbatim>\<open>finally\<close>.
  The test \<^verbatim>\<open>results && results.length > 0\<close> is false on a value that is not an array.
\<close>

definition handleSingleAnalyze ::
  "(string \<rightharpoonup> json) \<Rightarrow> (string list \<Rightarrow> response) \<Rightarrow> AppState \<Rightarrow> AppState" where
  "handleSingleAnalyze parse generateContent s =
     (if trim (singleInput s) = [] then s
      else
        let s1 = s\<lparr>singleLoading := True, singleResult := None\<rparr> in
        case processCommentWithGemini parse generateContent [singleInput s] (sent s1) of
          (outcome, sent') \<Rightarrow>
            let s2 = s1\<lparr>sent := sent'\<rparr>;
                s3 = (case outcome of
                        Inr results \<Rightarrow>
                          (case results of
                             Array items \<Rightarrow>
                               if length items > 0 then s2\<lparr>singleResult := items ! 0\<rparr> else s2
                           | NotArray \<Rightarrow> s2)
                      | Inl e \<Rightarrow>
                          s2\<lparr>alerts := alerts s2 @
                                [''Failed to analyze. Please ensure you have a valid API Key.'']\<rparr>)
            in s3\<lparr>singleLoading := False\<rparr>)"

text \<open>
  \<^verbatim>\<open>handleBatchLoadSample\<close> (lines 322 to 334). The \<^verbatim>\<open>catch\<close> takes what the client
  throws and also what \<^verbatim>\<open>calculateStats\<close> throws; in the second case \<^verbatim>\<open>setBatchData\<close>
  has already run.
\<close>

definition handleBatchLoadSample ::
  "(string \<rightharpoonup> json) \<Rightarrow> (string list \<Rightarrow> response) \<Rightarrow> AppState \<Rightarrow> AppState" where
  "handleBatchLoadSample parse generateContent s =
     (let s1 = s\<lparr>batchLoading := True, filterCategory := ''all''\<rparr> in
      case processCommentWithGemini parse generateContent SAMPLE_COMMENTS (sent s1) of
        (outcome, sent') \<Rightarrow>
          let s2 = s1\<lparr>sent := sent'\<rparr>;
              s3 = (case outcome of
                      Inr results \<Rightarrow>
                        let s2' = s2\<lparr>batchData := results\<rparr> in
                        (case calculateStats_of results of
                           Inr counted \<Rightarrow> s2'\<lparr>stats := counted\<rparr>
                         | Inl e \<Rightarrow> s2'\<lparr>alerts := alerts s2' @ [''Failed to load batch.'']\<rparr>)
                    | Inl e \<Rightarrow> s2\<lparr>alerts := alerts s2 @ [''Failed to load batch.'']\<rparr>)
          in s3\<lparr>batchLoading := False\<rparr>)"

text \<open>
  The ingestion steps of \<^verbatim>\<open>handleFileUpload\<close> (lines 345 to 352): \<^verbatim>\<open>lines\<close>,
  \<^verbatim>\<open>comments\<close> and \<^verbatim>\<open>limitedComments\<close> as functions of the text of the file.
\<close>

definition lines_of :: "string \<Rightarrow> string list" where
  "lines_of text = filter (\<lambda>line. trim line \<noteq> []) (split_lines text)"

definition is_header :: "string \<Rightarrow> bool" where
  "is_header line \<longleftrightarrow>
     includes_js (toLowerCase line) ''comment'' \<or> includes_js (toLowerCase line) ''text''"

definition comments_of :: "string \<Rightarrow> string list" where
  "comments_of text =
     (let lines = lines_of text in
      if length lines > 0 \<and> is_header (lines ! 0) then drop 1 lines else lines)"

definition limitedComments :: "string \<Rightarrow> string list" where
  "limitedComments text = take 200 (comments_of text)"

text \<open>
  \<^verbatim>\<open>handleFileUpload\<close> (lines 336 to 367), from the change event to the end of the
  \<^verbatim>\<open>onload\<close> callback. The file is \<open>None\<close> when the event carries no file, and otherwise
  the text that \<^verbatim>\<open>readAsText\<close> delivers. As in \<^verbatim>\<open>handleBatchLoadSample\<close>, the
  \<^verbatim>\<open>catch\<close> also takes what \<^verbatim>\<open>calculateStats\<close> throws after \<^verbatim>\<open>setBatchData\<close> has run.
\<close>

definition handleFileUpload ::
  "(string \<rightharpoonup> json) \<Rightarrow> (string list \<Rightarrow> response) \<Rightarrow> string option \<Rightarrow>
   AppState \<Rightarrow> AppState" where
  "handleFileUpload parse generateContent file s =
     (case file of
        None \<Rightarrow> s
      | Some text \<Rightarrow>
          let s1 = s\<lparr>batchLoading := True, filterCategory := ''all''\<rparr> in
          case processCommentWithGemini parse generateContent (limitedComments text) (sent s1) of
            (outcome, sent') \<Rightarrow>
              let s2 = s1\<lparr>sent := sent'\<rparr>;
                  s3 = (case outcome of
                          Inr results \<Rightarrow>
                            let s2' = s2\<lparr>batchData := results\<rparr> in
                            (case calculateStats_of results of
                               Inr counted \<Rightarrow> s2'\<lparr>stats := counted\<rparr>
                             | Inl e \<Rightarrow>
                                 s2'\<lparr>alerts := alerts s2' @ [''Error processing CSV data with AI.'']\<rparr>)
                        | Inl e \<Rightarrow> s2\<lparr>alerts := alerts s2 @ [''Error processing CSV data with AI.'']\<rparr>)
              in s3\<lparr>batchLoading := False\<rparr>)"

text \<open>
  \<^verbatim>\<open>handleDownloadCSV\<close> (lines 369 to 381). Nothing catches a \<^verbatim>\<open>TypeError\<close> here: it
  leaves the handler, and no file is handed to \<^verbatim>\<open>downloadFile\<close>.
\<close>

definition headers :: "string list" where
  "headers = [''Original Comment'', ''Category'', ''Reply Suggestion'']"

definition csv_row :: "ClassificationResult \<Rightarrow> string" where
  "csv_row row =
     [DQ] @ replace_quotes (original_text row) @ [DQ, COMMA, DQ] @ category row @
     [DQ, COMMA, DQ] @ replace_quotes (reply row) @ [DQ]"

definition csvContent :: "ClassificationResult list \<Rightarrow> string" where
  "csvContent rows = join [LF] (join [COMMA] headers # map csv_row rows)"

definition handleDownloadCSV :: "AppState \<Rightarrow> error + AppState" where
  "handleDownloadCSV s =
     (case batchData s of
        NotArray \<Rightarrow> Inl TypeError
      | Array items \<Rightarrow>
          if length items = 0 then Inr s
          else (case those items of
                  None \<Rightarrow> Inl TypeError
                | Some rows \<Rightarrow>
                    Inr (s\<lparr>downloads := downloads s @
                            [(''categorized_comments.csv'', csvContent rows,
                              ''text/csv;charset=utf-8;'')]\<rparr>)))"

text \<open>\<^verbatim>\<open>filteredBatchData\<close> (lines 383 to 386).\<close>

definition filteredBatchData :: "AppState \<Rightarrow> error + json" where
  "filteredBatchData s =
     (if filterCategory s = ''all'' then Inr (batchData s)
      else (case rows_of (batchData s) of
              None \<Rightarrow> Inl TypeError
            | Some rows \<Rightarrow>
                Inr (array_of (filter (\<lambda>item. category item = filterCategory s) rows))))"


section \<open>Reference readings of the specification\<close>

text \<open>
  A reader for comma-separated text in the usual sense (RFC 4180), used to state what
  re-parsing an export yields; it is not part of \<^verbatim>\<open>src/index.tsx\<close>. A field is either
  unquoted, or enclosed in double quotes with every embedded double quote written twice;
  fields are separated by commas and records by LF. The accumulators hold the current
  field, the current record and the finished records, each reversed.
\<close>

datatype csv_mode = FieldStart | Unquoted | Quoted | QuoteSeen

fun csv_read ::
  "csv_mode \<Rightarrow> string \<Rightarrow> string list \<Rightarrow> string list list \<Rightarrow> string \<Rightarrow> string list list option" where
  "csv_read FieldStart f r rs [] = (if r = [] then Some (rev rs) else Some (rev (rev ([] # r) # rs)))"
| "csv_read Unquoted f r rs [] = Some (rev (rev (rev f # r) # rs))"
| "csv_read Quoted f r rs [] = None"
| "csv_read QuoteSeen f r rs [] = Some (rev (rev (rev f # r) # rs))"
| "csv_read FieldStart f r rs (c # cs) =
     (if c = DQ then csv_read Quoted [] r rs cs
      else if c = COMMA then csv_read FieldStart [] ([] # r) rs cs
      else if c = LF then csv_read FieldStart [] [] (rev ([] # r) # rs) cs
      else csv_read Unquoted [c] r rs cs)"
| "csv_read Unquoted f r rs (c # cs) =
     (if c = DQ then None
      else if c = COMMA then csv_read FieldStart [] (rev f # r) rs cs
      else if c = LF then csv_read FieldStart [] [] (rev (rev f # r) # rs) cs
      else csv_read Unquoted (c # f) r rs cs)"
| "csv_read Quoted f r rs (c # cs) =
     (if c = DQ then csv_read QuoteSeen f r rs cs else csv_read Quoted (c # f) r rs cs)"
| "csv_read QuoteSeen f r rs (c # cs) =
     (if c = DQ then csv_read Quoted (DQ # f) r rs cs
      else if c = COMMA then csv_read FieldStart [] (rev f # r) rs cs
      else if c = LF then csv_read FieldStart [] [] (rev (rev f # r) # rs) cs
      else None)"

definition parse_csv :: "string \<Rightarrow> string list list option" where
  "parse_csv s = csv_read FieldStart [] [] [] s"

text \<open>The three values of a result, in the column order of the export.\<close>

definition fields_of :: "ClassificationResult \<Rightarrow> string list" where
  "fields_of row = [original_text row, category row, reply row]"

text \<open>
  The export in the words of the specification (file output boundary): every field is
  enclosed in double quotes with embedded double quotes doubled, and there is one row per
  currently filtered result.
\<close>

fun double_quotes :: "string \<Rightarrow> string" where
  "double_quotes [] = []"
| "double_quotes (c # cs) =
     (if c = DQ then DQ # DQ # double_quotes cs else c # double_quotes cs)"

definition enclose :: "string \<Rightarrow> string" where
  "enclose f = [DQ] @ f @ [DQ]"

definition spec_row :: "ClassificationResult \<Rightarrow> string" where
  "spec_row row =
     enclose (double_quotes (original_text row)) @ [COMMA] @
     enclose (double_quotes (category row)) @ [COMMA] @
     enclose (double_quotes (reply row))"

definition spec_export :: "ClassificationResult list \<Rightarrow> string" where
  "spec_export rows = join [LF] (''Original Comment,Category,Reply Suggestion'' # map spec_row rows)"

text \<open>
  The sum of the counts of an aggregation output. An output of \<^verbatim>\<open>calculateStats\<close> holds no
  \<^verbatim>\<open>NaN\<close>, which is given the value 0 here.
\<close>

fun nat_of_num :: "jsnum \<Rightarrow> nat" where
  "nat_of_num (Num n) = n"
| "nat_of_num NaN = 0"

definition count_sum :: "CategoryCount list \<Rightarrow> nat" where
  "count_sum xs = sum_list (map (\<lambda>x. nat_of_num (count x)) xs)"

text \<open>
  Two readings of a counter object, for the proofs about the aggregation: the sum of its
  values, and the value under a key (0 when the object does not own the key).
\<close>

definition total :: "counts \<Rightarrow> nat" where
  "total cs = sum_list (map (\<lambda>e. nat_of_num (snd e)) cs)"

definition occ :: "counts \<Rightarrow> string \<Rightarrow> nat" where
  "occ cs k = (case map_of cs k of Some v \<Rightarrow> nat_of_num v | None \<Rightarrow> 0)"

text \<open>The text with every CR LF pair written as LF.\<close>

fun strip_cr :: "string \<Rightarrow> string" where
  "strip_cr [] = []"
| "strip_cr [c] = [c]"
| "strip_cr (c # d # ds) =
     (if c = CR \<and> d = LF then LF # strip_cr ds else c # strip_cr (d # ds))"


section \<open>Stub services and sample states\<close>

text \<open>
  Stand-ins for the external service, used where a property is shown on a concrete run:
  a service that rejects every request, and one that answers without a body.
\<close>

definition rejecting_service :: "string list \<Rightarrow> response" where
  "rejecting_service comments = Rejected"

definition empty_body_service :: "string list \<Rightarrow> response" where
  "empty_body_service comments = Resolved None"

text \<open>The state of \<^verbatim>\<open>App\<close> after the first render, with empty traces.\<close>

definition initial_state :: AppState where
  "initial_state =
     \<lparr>activeTab = Single, showInfo = False, singleInput = [], singleResult = None,
      singleLoading = False, batchData = Array [], batchLoading = False, filterCategory = ''all'',
      stats = [], alerts = [], sent = [], downloads = []\<rparr>"

definition praise_result :: ClassificationResult where
  "praise_result =
     \<lparr>original_text = ''Great job!'', category = ''praise'', reply = ''Thank you!''\<rparr>"

definition threat_result :: ClassificationResult where
  "threat_result =
     \<lparr>original_text = ''I will find you.'', category = ''threat'',
      reply = ''[URGENT] Threat detected. Escalate to safety team.''\<rparr>"

text \<open>A state with two results loaded and counted.\<close>

definition loaded_state :: AppState where
  "loaded_state =
     initial_state
       \<lparr>batchData := array_of [praise_result, threat_result],
        stats := [\<lparr>stat_category = ''praise'', count = Num 1\<rparr>,
                  \<lparr>stat_category = ''threat'', count = Num 1\<rparr>]\<rparr>"

text \<open>
  A service whose body is not JSON, one whose body parses to one result, and one whose
  body parses to an object; with them the parse of each body.
\<close>

definition object_service :: "string list \<Rightarrow> response" where
  "object_service comments = Resolved (Some ''{}'')"

definition sample_parse :: "string \<rightharpoonup> json" where
  "sample_parse = [''[praise]'' \<mapsto> array_of [praise_result], ''{}'' \<mapsto> NotArray]"

definition malformed_service :: "string list \<Rightarrow> response" where
  "malformed_service comments = Resolved (Some ''not json'')"

definition answering_service :: "string list \<Rightarrow> response" where
  "answering_service comments = Resolved (Some ''[praise]'')"

text \<open>Two small files: one with a header line and CR LF line ends, one without a header.\<close>

definition header_file :: string where
  "header_file = ''Comment'' @ [CR, LF] @ [DQ] @ ''Great job!'' @ [DQ] @ [LF]"

definition plain_file :: string where
  "plain_file = ''Great job!'' @ [LF] @ ''Terrible.''"

text \<open>
  Results whose category is not a registered identifier: one with a double quote in it,
  two named like a member of \<^verbatim>\<open>Object.prototype\<close>, and an ordinary unknown one.
\<close>

definition quote_in_category :: ClassificationResult where
  "quote_in_category =
     \<lparr>original_text = ''Nice'', category = ''a'' @ [DQ, COMMA, DQ] @ ''b'', reply = ''Thanks''\<rparr>"

definition constructor_result :: ClassificationResult where
  "constructor_result =
     \<lparr>original_text = ''Nice'', category = ''constructor'', reply = ''Thanks''\<rparr>"

definition toString_result :: ClassificationResult where
  "toString_result =
     \<lparr>original_text = ''Nice'', category = ''toString'', reply = ''Thanks''\<rparr>"

definition other_result :: ClassificationResult where
  "other_result =
     \<lparr>original_text = ''Nice'', category = ''other'', reply = ''Thanks''\<rparr>"

text \<open>A file of 201 lines, none of them a header.\<close>

definition long_file :: string where
  "long_file = concat (replicate 201 (''ok'' @ [LF]))"


section \<open>Facts about the string helpers\<close>

lemma includes_js_sublist: "includes_js s t \<longleftrightarrow> sublist t s"
  by (induction s) (auto simp: sublist_Cons_right)

lemma sublist_map_iff: "sublist t (map f l) \<longleftrightarrow> (\<exists>w. sublist w l \<and> map f w = t)"
proof
  assume "sublist t (map f l)"
  then show "\<exists>w. sublist w l \<and> map f w = t"
    using sublist_map_rightE[of t f l] by auto
next
  assume "\<exists>w. sublist w l \<and> map f w = t"
  then obtain w ps ss where "l = ps @ w @ ss" "map f w = t" by (auto simp: sublist_def)
  then have "map f l = map f ps @ t @ map f ss" by simp
  then show "sublist t (map f l)" unfolding sublist_def by blast
qed

lemma dropWhile_all_iff: "(\<forall>x\<in>set (dropWhile P s). P x) \<longleftrightarrow> (\<forall>x\<in>set s. P x)"
proof (cases "dropWhile P s")
  case Nil
  then have "\<forall>x\<in>set s. P x" by simp
  then show ?thesis by (auto dest: set_dropWhileD)
next
  case (Cons y ys)
  then have "\<not> P y" using hd_dropWhile[of P s] by simp
  moreover have "y \<in> set (dropWhile P s)" using Cons by simp
  moreover have "y \<in> set s" using Cons set_dropWhileD[of y P s] by simp
  ultimately show ?thesis by blast
qed

lemma trim_blank: "trim s = [] \<longleftrightarrow> list_all isWhiteSpace s"
  by (simp add: trim_def list_all_iff dropWhile_all_iff)

lemma push_char_nonempty: "push_char c ls \<noteq> []"
  by (cases ls) auto

lemma push_char_set: "ls \<noteq> [] \<Longrightarrow> l \<in> set (push_char c ls) \<Longrightarrow> (\<exists>l'. l' \<in> set ls \<and> (l = l' \<or> l = c # l'))"
  by (cases ls) auto

lemma split_lines_nonempty: "split_lines s \<noteq> []"
  by (induction s rule: split_lines.induct) (auto simp: push_char_nonempty)

lemma split_lines_no_LF: "l \<in> set (split_lines s) \<Longrightarrow> LF \<notin> set l"
proof (induction s arbitrary: l rule: split_lines.induct)
  case 1 then show ?case by simp
next
  case (2 c) then show ?case by (auto split: if_splits)
next
  case (3 c d ds)
  show ?case
  proof (cases "c = LF")
    case True
    with 3 show ?thesis by auto
  next
    case False
    show ?thesis
    proof (cases "c = CR \<and> d = LF")
      case True
      with 3 False show ?thesis by auto
    next
      case nocr: False
      from "3.prems" False nocr have "l \<in> set (push_char c (split_lines (d # ds)))"
        by (simp split: if_splits)
      then obtain l' where l': "l' \<in> set (split_lines (d # ds))" "l = l' \<or> l = c # l'"
        using push_char_set[OF split_lines_nonempty] by blast
      have "LF \<notin> set l'" using "3.IH"(3)[OF False nocr l'(1)] .
      with l'(2) False show ?thesis by auto
    qed
  qed
qed




lemma join_Cons: "ls \<noteq> [] \<Longrightarrow> join sep (x # ls) = x @ sep @ join sep ls"
  by (cases ls) simp_all

lemma join_push_char: "ls \<noteq> [] \<Longrightarrow> join sep (push_char c ls) = c # join sep ls"
proof (cases ls)
  case Nil
  then show ?thesis by simp
next
  case (Cons l ls')
  then show ?thesis by (cases ls') simp_all
qed

lemma join_split_lines: "join [LF] (split_lines s) = strip_cr s"
proof (induction s rule: split_lines.induct)
  case 1
  then show ?case by simp
next
  case (2 c)
  then show ?case by simp
next
  case (3 c d ds)
  show ?case
  proof (cases "c = LF")
    case True
    then have "c \<noteq> CR" by (simp add: LF_def CR_def)
    with True 3 show ?thesis by (simp add: join_Cons split_lines_nonempty)
  next
    case False
    show ?thesis
    proof (cases "c = CR \<and> d = LF")
      case True
      with False 3 show ?thesis by (simp add: join_Cons split_lines_nonempty)
    next
      case nocr: False
      then have "strip_cr (c # d # ds) = c # strip_cr (d # ds)" by auto
      moreover have "split_lines (c # d # ds) = push_char c (split_lines (d # ds))"
        using False nocr by auto
      ultimately show ?thesis
        using "3.IH"(3)[OF False nocr] by (simp only: join_push_char[OF split_lines_nonempty])
    qed
  qed
qed


section \<open>Facts about the classification client and the handlers\<close>

lemma process_sent:
  "snd (processCommentWithGemini parse gen comments sent0) = sent0 @ [comments]"
  by (simp add: processCommentWithGemini_def Let_def split: response.splits option.splits)

lemma those_map_Some: "those (map Some rows) = Some rows"
  by (induction rows) simp_all

lemma rows_of_array_of: "rows_of (array_of rows) = Some rows"
  by (simp add: array_of_def those_map_Some)

lemma process_pair:
  "processCommentWithGemini parse gen comments trace =
     (fst (processCommentWithGemini parse gen comments trace), trace @ [comments])"
  using process_sent[of parse gen comments trace] by (simp add: prod_eq_iff)

lemma handleFileUpload_fail:
  assumes "fst (processCommentWithGemini parse gen (limitedComments file_text) (sent s)) = Inl e"
  shows "handleFileUpload parse gen (Some file_text) s =
           s\<lparr>batchLoading := False, filterCategory := ''all'',
             sent := sent s @ [limitedComments file_text],
             alerts := alerts s @ [''Error processing CSV data with AI.'']\<rparr>"
  unfolding handleFileUpload_def
  by (subst process_pair) (simp add: assms)

lemma handleFileUpload_counted:
  assumes "fst (processCommentWithGemini parse gen (limitedComments file_text) (sent s)) =
             Inr results"
    and "rows_of results = Some rows"
  shows "handleFileUpload parse gen (Some file_text) s =
           s\<lparr>batchLoading := False, filterCategory := ''all'',
             sent := sent s @ [limitedComments file_text],
             batchData := results, stats := calculateStats rows\<rparr>"
  unfolding handleFileUpload_def
  by (subst process_pair) (simp add: assms calculateStats_of_def)

lemma handleFileUpload_misshaped:
  assumes "fst (processCommentWithGemini parse gen (limitedComments file_text) (sent s)) =
             Inr results"
    and "rows_of results = None"
  shows "handleFileUpload parse gen (Some file_text) s =
           s\<lparr>batchLoading := False, filterCategory := ''all'',
             sent := sent s @ [limitedComments file_text],
             batchData := results,
             alerts := alerts s @ [''Error processing CSV data with AI.'']\<rparr>"
  unfolding handleFileUpload_def
  by (subst process_pair) (simp add: assms calculateStats_of_def)

lemma handleBatchLoadSample_fail:
  assumes "fst (processCommentWithGemini parse gen SAMPLE_COMMENTS (sent s)) = Inl e"
  shows "handleBatchLoadSample parse gen s =
           s\<lparr>batchLoading := False, filterCategory := ''all'',
             sent := sent s @ [SAMPLE_COMMENTS], alerts := alerts s @ [''Failed to load batch.'']\<rparr>"
  unfolding handleBatchLoadSample_def
  by (subst process_pair) (simp add: assms)

lemma handleBatchLoadSample_counted:
  assumes "fst (processCommentWithGemini parse gen SAMPLE_COMMENTS (sent s)) = Inr results"
    and "rows_of results = Some rows"
  shows "handleBatchLoadSample parse gen s =
           s\<lparr>batchLoading := False, filterCategory := ''all'',
             sent := sent s @ [SAMPLE_COMMENTS],
             batchData := results, stats := calculateStats rows\<rparr>"
  unfolding handleBatchLoadSample_def
  by (subst process_pair) (simp add: assms calculateStats_of_def)

lemma handleBatchLoadSample_misshaped:
  assumes "fst (processCommentWithGemini parse gen SAMPLE_COMMENTS (sent s)) = Inr results"
    and "rows_of results = None"
  shows "handleBatchLoadSample parse gen s =
           s\<lparr>batchLoading := False, filterCategory := ''all'',
             sent := sent s @ [SAMPLE_COMMENTS],
             batchData := results, alerts := alerts s @ [''Failed to load batch.'']\<rparr>"
  unfolding handleBatchLoadSample_def
  by (subst process_pair) (simp add: assms calculateStats_of_def)

lemma handleFileUpload_sent:
  "sent (handleFileUpload parse gen (Some file_text) s) = sent s @ [limitedComments file_text]"
proof (cases "fst (processCommentWithGemini parse gen (limitedComments file_text) (sent s))")
  case (Inl e)
  then show ?thesis by (simp add: handleFileUpload_fail)
next
  case (Inr results)
  then show ?thesis
    by (cases "rows_of results")
      (simp_all add: handleFileUpload_misshaped handleFileUpload_counted)
qed

lemma handleFileUpload_idle: "batchLoading (handleFileUpload parse gen (Some file_text) s) = False"
proof (cases "fst (processCommentWithGemini parse gen (limitedComments file_text) (sent s))")
  case (Inl e)
  then show ?thesis by (simp add: handleFileUpload_fail)
next
  case (Inr results)
  then show ?thesis
    by (cases "rows_of results")
      (simp_all add: handleFileUpload_misshaped handleFileUpload_counted)
qed

lemma handleBatchLoadSample_idle: "batchLoading (handleBatchLoadSample parse gen s) = False"
proof (cases "fst (processCommentWithGemini parse gen SAMPLE_COMMENTS (sent s))")
  case (Inl e)
  then show ?thesis by (simp add: handleBatchLoadSample_fail)
next
  case (Inr results)
  then show ?thesis
    by (cases "rows_of results")
      (simp_all add: handleBatchLoadSample_misshaped handleBatchLoadSample_counted)
qed

lemma empty_body_outcome:
  assumes "gen comments = Resolved None \<or> gen comments = Resolved (Some [])"
  shows "fst (processCommentWithGemini parse gen comments trace) = Inr (Array [])"
  using assms by (auto simp add: processCommentWithGemini_def)

lemma calculateStats_Nil: "calculateStats [] = []"
  by code_simp

lemma long_file_comments: "length (comments_of long_file) = 201"
  by code_simp


lemma header_file_lines: "lines_of header_file = [''Comment'', [DQ] @ ''Great job!'' @ [DQ]]"
  by code_simp

lemma plain_file_kept: "comments_of plain_file = [''Great job!'', ''Terrible.'']"
  by code_simp

lemma Comment_sublist: "sublist ''Comment'' ''Comment''"
  by simp

lemma Comment_lower: "toLowerCase ''Comment'' = ''comment''"
  by code_simp

lemma rejecting_fails:
  "fst (processCommentWithGemini parse rejecting_service comments sent0) = Inl ServiceError"
  by (simp add: processCommentWithGemini_def rejecting_service_def)


lemma plain_file_limited: "limitedComments plain_file = [''Great job!'', ''Terrible.'']"
  by (simp add: limitedComments_def plain_file_kept)

text \<open>
  The path of the batch handlers on which the alert comes after the result set was
  replaced: the client returns a value that is not an array of result objects.
\<close>

lemma object_body_alert_after_replacement:
  "handleFileUpload sample_parse object_service (Some plain_file) loaded_state =
     loaded_state\<lparr>sent := [[''Great job!'', ''Terrible.'']], batchData := NotArray,
       alerts := [''Error processing CSV data with AI.'']\<rparr>"
proof -
  have "fst (processCommentWithGemini sample_parse object_service (limitedComments plain_file)
               (sent loaded_state)) = Inr NotArray"
    by (simp add: processCommentWithGemini_def object_service_def sample_parse_def)
  then show ?thesis
    using handleFileUpload_misshaped[of sample_parse object_service plain_file loaded_state NotArray]
    by (simp add: plain_file_limited loaded_state_def initial_state_def)
qed

lemma lines_of_not_blank:
  "l \<in> set (lines_of s) \<Longrightarrow> \<not> list_all isWhiteSpace l \<and> LF \<notin> set l"
  by (auto simp add: lines_of_def trim_blank dest: split_lines_no_LF)

lemma single_analyze_sends:
  "\<not> list_all isWhiteSpace (singleInput s) \<Longrightarrow>
   sent (handleSingleAnalyze parse gen s) = sent s @ [[singleInput s]]"
  unfolding handleSingleAnalyze_def
  by (subst process_pair)
    (simp add: trim_blank Let_def split: sum.splits json.splits)


section \<open>Batch ingestion\<close>

text \<open>
  Claim C2. The batch that \<^verbatim>\<open>handleFileUpload\<close> sends to classification is the list of
  candidate lines (what is left after blank-line removal and header removal) cut to its
  first 200 entries: exactly one batch is sent; when there are more than 200 candidate
  lines the batch has length 200 and is an initial segment of them, in order; when there
  are 200 or fewer the batch is all of them. Cutting raises no alert: when the
  client returns an array of result objects, the alerts are those from before.
\<close>

theorem upload_forwards_first_200:
  "sent (handleFileUpload parse gen (Some file_text) s) =
     sent s @ [last (sent (handleFileUpload parse gen (Some file_text) s))] \<and>
   (200 < length (comments_of file_text) \<longrightarrow>
      length (last (sent (handleFileUpload parse gen (Some file_text) s))) = 200 \<and>
      prefix (last (sent (handleFileUpload parse gen (Some file_text) s))) (comments_of file_text)) \<and>
   (length (comments_of file_text) \<le> 200 \<longrightarrow>
      last (sent (handleFileUpload parse gen (Some file_text) s)) = comments_of file_text) \<and>
   (fst (processCommentWithGemini parse gen (take 200 (comments_of file_text)) (sent s)) =
      Inr results \<and> rows_of results = Some rows \<longrightarrow>
      alerts (handleFileUpload parse gen (Some file_text) s) = alerts s)"
proof -
  have fwd: "last (sent (handleFileUpload parse gen (Some file_text) s)) =
      take 200 (comments_of file_text)"
    by (simp add: handleFileUpload_sent limitedComments_def)
  have a: "sent (handleFileUpload parse gen (Some file_text) s) =
      sent s @ [last (sent (handleFileUpload parse gen (Some file_text) s))]"
    by (simp add: handleFileUpload_sent)
  have b: "200 < length (comments_of file_text) \<longrightarrow>
      length (take 200 (comments_of file_text)) = 200 \<and>
      prefix (take 200 (comments_of file_text)) (comments_of file_text)"
    by (simp add: take_is_prefix)
  have c: "length (comments_of file_text) \<le> 200 \<longrightarrow>
      take 200 (comments_of file_text) = comments_of file_text"
    by simp
  have d: "fst (processCommentWithGemini parse gen (take 200 (comments_of file_text)) (sent s)) =
      Inr results \<and> rows_of results = Some rows \<longrightarrow>
      alerts (handleFileUpload parse gen (Some file_text) s) = alerts s"
    using handleFileUpload_counted[of parse gen file_text s results rows]
    by (simp add: limitedComments_def)
  from a b c d show ?thesis unfolding fwd by (intro conjI)
qed

theorem upload_forwards_first_200_witness:
  "200 < length (comments_of long_file) \<and>
   fst (processCommentWithGemini Map.empty empty_body_service
          (take 200 (comments_of long_file)) (sent initial_state)) = Inr (Array []) \<and>
   rows_of (Array []) = Some [] \<and>
   length (last (sent (handleFileUpload Map.empty empty_body_service (Some long_file)
                         initial_state))) = 200 \<and>
   alerts (handleFileUpload Map.empty empty_body_service (Some long_file) initial_state) =
     alerts initial_state \<and>
   length (comments_of plain_file) \<le> 200 \<and>
   last (sent (handleFileUpload Map.empty empty_body_service (Some plain_file) initial_state)) =
     [''Great job!'', ''Terrible.'']"
proof -
  have h1: "200 < length (comments_of long_file)" by (simp add: long_file_comments)
  have h2: "fst (processCommentWithGemini Map.empty empty_body_service
                (take 200 (comments_of long_file)) (sent initial_state)) = Inr (Array [])"
    by (simp add: processCommentWithGemini_def empty_body_service_def)
  have h2': "rows_of (Array []) = Some []" by simp
  have h3: "length (comments_of plain_file) \<le> 200" by (simp add: plain_file_kept)
  have long: "length (last (sent (handleFileUpload Map.empty empty_body_service (Some long_file)
                         initial_state))) = 200 \<and>
      alerts (handleFileUpload Map.empty empty_body_service (Some long_file) initial_state) =
        alerts initial_state"
    using h1 h2 h2'
      upload_forwards_first_200 [of Map.empty empty_body_service long_file initial_state
        "Array []" "[]"]
    by blast
  have "last (sent (handleFileUpload Map.empty empty_body_service (Some plain_file)
                      initial_state)) = comments_of plain_file"
    using h3
      upload_forwards_first_200 [of Map.empty empty_body_service plain_file initial_state]
    by blast
  then have short: "last (sent (handleFileUpload Map.empty empty_body_service (Some plain_file)
                      initial_state)) = [''Great job!'', ''Terrible.'']"
    by (simp only: plain_file_kept)
  from h1 h2 h2' long h3 short show ?thesis
    by (intro conjI) (erule conjunct1 conjunct2 | assumption)+
qed

text \<open>
  Claim C3. Let \<open>l\<close> be the first line left after splitting the file on line boundaries
  and dropping the whitespace-only lines, and \<open>ls\<close> the lines after it. The candidate
  lines are \<open>ls\<close> (the first line is discarded) if and only if some contiguous piece of
  \<open>l\<close> is, up to letter case, \<^verbatim>\<open>comment\<close> or \<^verbatim>\<open>text\<close>; and they are all of \<open>l # ls\<close>
  if and only if no piece of \<open>l\<close> is.
\<close>

theorem header_discarded_iff:
  assumes "lines_of file_text = l # ls"
  shows "(comments_of file_text = ls \<longleftrightarrow>
           (\<exists>w. sublist w l \<and> (toLowerCase w = ''comment'' \<or> toLowerCase w = ''text''))) \<and>
         (comments_of file_text = l # ls \<longleftrightarrow>
           \<not> (\<exists>w. sublist w l \<and> (toLowerCase w = ''comment'' \<or> toLowerCase w = ''text'')))"
proof -
  let ?H = "\<exists>w. sublist w l \<and> (toLowerCase w = ''comment'' \<or> toLowerCase w = ''text'')"
  have H: "is_header l \<longleftrightarrow> ?H"
    by (simp add: is_header_def includes_js_sublist toLowerCase_def sublist_map_iff
          ex_disj_distrib conj_disj_distribL)
  show ?thesis
  proof (cases "is_header l")
    case True
    from H True have h: ?H by (rule iffD1)
    have c: "comments_of file_text = ls"
      using assms True by (simp add: comments_of_def)
    show ?thesis by (simp only: c h) simp
  next
    case False
    have h: "\<not> ?H"
    proof
      assume a: ?H
      from H a have "is_header l" by (rule iffD2)
      with False show False by (rule notE)
    qed
    have c: "comments_of file_text = l # ls"
      using assms False by (simp add: comments_of_def)
    show ?thesis by (simp only: c h) simp
  qed
qed


theorem header_discarded_iff_witness:
  "lines_of header_file = ''Comment'' # [[DQ] @ ''Great job!'' @ [DQ]] \<and>
   comments_of header_file = [[DQ] @ ''Great job!'' @ [DQ]]"
proof -
  have h: "lines_of header_file = ''Comment'' # [[DQ] @ ''Great job!'' @ [DQ]]"
    by (simp only: header_file_lines)
  have "sublist ''Comment'' ''Comment'' \<and>
        (toLowerCase ''Comment'' = ''comment'' \<or> toLowerCase ''Comment'' = ''text'')"
    using Comment_sublist Comment_lower by (intro conjI disjI1)
  then have "\<exists>w. sublist w ''Comment'' \<and> (toLowerCase w = ''comment'' \<or> toLowerCase w = ''text'')"
    by (rule exI [of _ "''Comment''"])
  with header_discarded_iff [OF h] have "comments_of header_file = [[DQ] @ ''Great job!'' @ [DQ]]"
    by (simp only:)
  with h show ?thesis by (rule conjI)
qed


section \<open>Single-comment mode\<close>

text \<open>
  Claim C9. When the single-comment input is empty or consists only of white space,
  \<^verbatim>\<open>handleSingleAnalyze\<close> returns the state it was given: nothing is sent to the
  service, no alert is raised, and the result and the busy flag are as before.
\<close>

theorem single_analyze_blank_noop:
  "list_all isWhiteSpace (singleInput s) \<Longrightarrow> handleSingleAnalyze parse generateContent s = s"
  by (simp add: handleSingleAnalyze_def trim_blank)

theorem single_analyze_blank_noop_witness:
  "list_all isWhiteSpace (singleInput (initial_state\<lparr>singleInput := ''  ''\<rparr>)) \<and>
   handleSingleAnalyze Map.empty rejecting_service (initial_state\<lparr>singleInput := ''  ''\<rparr>) =
     initial_state\<lparr>singleInput := ''  ''\<rparr>"
proof -
  have h: "list_all isWhiteSpace (singleInput (initial_state\<lparr>singleInput := ''  ''\<rparr>))"
    by (simp add: isWhiteSpace_def)
  show ?thesis using h single_analyze_blank_noop [OF h, of Map.empty rejecting_service] by simp
qed


section \<open>Filtering\<close>

text \<open>
  Claim C5. With the selector \<^verbatim>\<open>all\<close> the filtered view is the loaded result set itself;
  with any other selector, and a sequence of results loaded, it is the sequence of exactly
  those entries whose category equals the selector, in their order. The view is a
  function of the loaded results and the selector alone, and it yields a value, not a new
  state.
\<close>

theorem filter_identity_or_exact_match:
  "filteredBatchData (s\<lparr>filterCategory := ''all''\<rparr>) = Inr (batchData s) \<and>
   (selector \<noteq> ''all'' \<and> batchData s = array_of results \<longrightarrow>
      filteredBatchData (s\<lparr>filterCategory := selector\<rparr>) =
        Inr (array_of (filter (\<lambda>item. category item = selector) results))) \<and>
   (batchData s = batchData s' \<and> filterCategory s = filterCategory s' \<longrightarrow>
      filteredBatchData s = filteredBatchData s')"
proof -
  have a: "filteredBatchData (s\<lparr>filterCategory := ''all''\<rparr>) = Inr (batchData s)"
    by (simp add: filteredBatchData_def)
  have b: "selector \<noteq> ''all'' \<and> batchData s = array_of results \<longrightarrow>
      filteredBatchData (s\<lparr>filterCategory := selector\<rparr>) =
        Inr (array_of (filter (\<lambda>item. category item = selector) results))"
    by (simp add: filteredBatchData_def rows_of_array_of)
  have c: "batchData s = batchData s' \<and> filterCategory s = filterCategory s' \<longrightarrow>
      filteredBatchData s = filteredBatchData s'"
  proof
    assume "batchData s = batchData s' \<and> filterCategory s = filterCategory s'"
    then show "filteredBatchData s = filteredBatchData s'"
      unfolding filteredBatchData_def by (simp only:)
  qed
  from a b c show ?thesis by (intro conjI)
qed

theorem filter_identity_or_exact_match_witness:
  "''threat'' \<noteq> ''all'' \<and>
   batchData loaded_state = array_of [praise_result, threat_result] \<and>
   filteredBatchData (loaded_state\<lparr>filterCategory := ''threat''\<rparr>) =
     Inr (array_of [threat_result]) \<and>
   filteredBatchData (loaded_state\<lparr>filterCategory := ''all''\<rparr>) =
     Inr (array_of [praise_result, threat_result])"
  using filter_identity_or_exact_match
    [of loaded_state "''threat''" "[praise_result, threat_result]" loaded_state]
  by (simp add: loaded_state_def praise_result_def threat_result_def)


section \<open>Failure of a batch submission\<close>

text \<open>
  Claim C8, as the code has it. When the classification client fails during a batch
  submission (an uploaded file or the sample batch), that is when the request is rejected
  or the body does not parse, the loaded result set and the category counts are those of
  the prior state and exactly one alert is added to the alerts raised so far. A missing
  or empty body is no failure of the client: the result set and the counts are replaced
  by empty ones and no alert is raised. After a submission the batch busy flag is off in
  every case.
\<close>

theorem batch_failure_leaves_data:
  "(fst (processCommentWithGemini parse gen (limitedComments file_text) (sent s)) = Inl e \<longrightarrow>
      batchData (handleFileUpload parse gen (Some file_text) s) = batchData s \<and>
      stats (handleFileUpload parse gen (Some file_text) s) = stats s \<and>
      alerts (handleFileUpload parse gen (Some file_text) s) =
        alerts s @ [''Error processing CSV data with AI.'']) \<and>
   (fst (processCommentWithGemini parse gen SAMPLE_COMMENTS (sent s)) = Inl e \<longrightarrow>
      batchData (handleBatchLoadSample parse gen s) = batchData s \<and>
      stats (handleBatchLoadSample parse gen s) = stats s \<and>
      alerts (handleBatchLoadSample parse gen s) = alerts s @ [''Failed to load batch.'']) \<and>
   (gen (limitedComments file_text) = Resolved None \<or>
    gen (limitedComments file_text) = Resolved (Some []) \<longrightarrow>
      batchData (handleFileUpload parse gen (Some file_text) s) = Array [] \<and>
      stats (handleFileUpload parse gen (Some file_text) s) = [] \<and>
      alerts (handleFileUpload parse gen (Some file_text) s) = alerts s) \<and>
   (gen SAMPLE_COMMENTS = Resolved None \<or> gen SAMPLE_COMMENTS = Resolved (Some []) \<longrightarrow>
      batchData (handleBatchLoadSample parse gen s) = Array [] \<and>
      stats (handleBatchLoadSample parse gen s) = [] \<and>
      alerts (handleBatchLoadSample parse gen s) = alerts s) \<and>
   batchLoading (handleFileUpload parse gen (Some file_text) s) = False \<and>
   batchLoading (handleBatchLoadSample parse gen s) = False"
proof -
  have a: "fst (processCommentWithGemini parse gen (limitedComments file_text) (sent s)) = Inl e \<longrightarrow>
      batchData (handleFileUpload parse gen (Some file_text) s) = batchData s \<and>
      stats (handleFileUpload parse gen (Some file_text) s) = stats s \<and>
      alerts (handleFileUpload parse gen (Some file_text) s) =
        alerts s @ [''Error processing CSV data with AI.'']"
    by (simp add: handleFileUpload_fail)
  have b: "fst (processCommentWithGemini parse gen SAMPLE_COMMENTS (sent s)) = Inl e \<longrightarrow>
      batchData (handleBatchLoadSample parse gen s) = batchData s \<and>
      stats (handleBatchLoadSample parse gen s) = stats s \<and>
      alerts (handleBatchLoadSample parse gen s) = alerts s @ [''Failed to load batch.'']"
    by (simp add: handleBatchLoadSample_fail)
  have c: "gen (limitedComments file_text) = Resolved None \<or>
      gen (limitedComments file_text) = Resolved (Some []) \<longrightarrow>
      batchData (handleFileUpload parse gen (Some file_text) s) = Array [] \<and>
      stats (handleFileUpload parse gen (Some file_text) s) = [] \<and>
      alerts (handleFileUpload parse gen (Some file_text) s) = alerts s"
  proof
    assume "gen (limitedComments file_text) = Resolved None \<or>
      gen (limitedComments file_text) = Resolved (Some [])"
    then have "fst (processCommentWithGemini parse gen (limitedComments file_text) (sent s)) =
        Inr (Array [])"
      by (rule empty_body_outcome)
    then show "batchData (handleFileUpload parse gen (Some file_text) s) = Array [] \<and>
      stats (handleFileUpload parse gen (Some file_text) s) = [] \<and>
      alerts (handleFileUpload parse gen (Some file_text) s) = alerts s"
      using handleFileUpload_counted[of parse gen file_text s "Array []" "[]"]
      by (simp add: calculateStats_Nil)
  qed
  have d: "gen SAMPLE_COMMENTS = Resolved None \<or> gen SAMPLE_COMMENTS = Resolved (Some []) \<longrightarrow>
      batchData (handleBatchLoadSample parse gen s) = Array [] \<and>
      stats (handleBatchLoadSample parse gen s) = [] \<and>
      alerts (handleBatchLoadSample parse gen s) = alerts s"
  proof
    assume "gen SAMPLE_COMMENTS = Resolved None \<or> gen SAMPLE_COMMENTS = Resolved (Some [])"
    then have "fst (processCommentWithGemini parse gen SAMPLE_COMMENTS (sent s)) = Inr (Array [])"
      by (rule empty_body_outcome)
    then show "batchData (handleBatchLoadSample parse gen s) = Array [] \<and>
      stats (handleBatchLoadSample parse gen s) = [] \<and>
      alerts (handleBatchLoadSample parse gen s) = alerts s"
      using handleBatchLoadSample_counted[of parse gen s "Array []" "[]"]
      by (simp add: calculateStats_Nil)
  qed
  from a b c d handleFileUpload_idle[of parse gen file_text s]
    handleBatchLoadSample_idle[of parse gen s]
  show ?thesis by (intro conjI)
qed

theorem batch_failure_leaves_data_witness:
  "fst (processCommentWithGemini Map.empty rejecting_service (limitedComments plain_file)
          (sent loaded_state)) = Inl ServiceError \<and>
   fst (processCommentWithGemini Map.empty rejecting_service SAMPLE_COMMENTS
          (sent loaded_state)) = Inl ServiceError \<and>
   batchData (handleFileUpload Map.empty rejecting_service (Some plain_file) loaded_state) =
     array_of [praise_result, threat_result] \<and>
   batchData (handleBatchLoadSample Map.empty rejecting_service loaded_state) =
     array_of [praise_result, threat_result] \<and>
   alerts (handleFileUpload Map.empty rejecting_service (Some plain_file) loaded_state) =
     [''Error processing CSV data with AI.''] \<and>
   alerts (handleBatchLoadSample Map.empty rejecting_service loaded_state) =
     [''Failed to load batch.''] \<and>
   empty_body_service (limitedComments plain_file) = Resolved None \<and>
   empty_body_service SAMPLE_COMMENTS = Resolved None \<and>
   batchData (handleFileUpload Map.empty empty_body_service (Some plain_file) loaded_state) =
     Array [] \<and>
   batchData (handleBatchLoadSample Map.empty empty_body_service loaded_state) = Array [] \<and>
   alerts (handleFileUpload Map.empty empty_body_service (Some plain_file) loaded_state) = [] \<and>
   alerts (handleBatchLoadSample Map.empty empty_body_service loaded_state) = []"
  using
    batch_failure_leaves_data
      [of Map.empty rejecting_service plain_file loaded_state ServiceError]
    batch_failure_leaves_data
      [of Map.empty empty_body_service plain_file loaded_state ServiceError]
  by (simp add: rejecting_fails empty_body_service_def loaded_state_def initial_state_def)

text \<open>
  The claim as stated counts a missing body among the failures of the service. There it
  fails: with two results loaded and counted, a submission answered without a body
  leaves an empty result set and no counts, and raises no alert.
\<close>

theorem empty_body_replaces_data:
  "empty_body_service (limitedComments plain_file) = Resolved None \<and>
   batchData loaded_state = array_of [praise_result, threat_result] \<and>
   batchData (handleFileUpload Map.empty empty_body_service (Some plain_file) loaded_state) =
     Array [] \<and>
   stats loaded_state =
     [\<lparr>stat_category = ''praise'', count = Num 1\<rparr>, \<lparr>stat_category = ''threat'', count = Num 1\<rparr>] \<and>
   stats (handleFileUpload Map.empty empty_body_service (Some plain_file) loaded_state) = [] \<and>
   alerts (handleFileUpload Map.empty empty_body_service (Some plain_file) loaded_state) = []"
proof -
  have "fst (processCommentWithGemini Map.empty empty_body_service (limitedComments plain_file)
               (sent loaded_state)) = Inr (Array [])"
    by (simp add: empty_body_outcome empty_body_service_def)
  then show ?thesis
    using handleFileUpload_counted
      [of Map.empty empty_body_service plain_file loaded_state "Array []" "[]"]
    by (simp add: calculateStats_Nil empty_body_service_def loaded_state_def initial_state_def)
qed


section \<open>The classification client\<close>

text \<open>
  Claim C1, as the code has it. A rejected request and a body that \<^verbatim>\<open>JSON.parse\<close> does
  not accept each make the client fail. A missing or empty body does not: the client
  returns the empty result sequence. A body that parses is returned whole. In every case
  exactly one batch is sent, so there is no retry, and nothing but a failure or the whole
  parsed sequence comes back.
\<close>

theorem client_outcomes:
  "(gen comments = Rejected \<longrightarrow>
      processCommentWithGemini parse gen comments trace = (Inl ServiceError, trace @ [comments])) \<and>
   (gen comments = Resolved (Some body) \<and> body \<noteq> [] \<and> parse body = None \<longrightarrow>
      processCommentWithGemini parse gen comments trace = (Inl SyntaxError, trace @ [comments])) \<and>
   (gen comments = Resolved None \<or> gen comments = Resolved (Some []) \<longrightarrow>
      processCommentWithGemini parse gen comments trace = (Inr (array_of []), trace @ [comments])) \<and>
   (gen comments = Resolved (Some body) \<and> body \<noteq> [] \<and> parse body = Some results \<longrightarrow>
      processCommentWithGemini parse gen comments trace = (Inr results, trace @ [comments]))"
  by (auto simp add: processCommentWithGemini_def array_of_def)

theorem client_outcomes_witness:
  "rejecting_service [''hello''] = Rejected \<and>
   processCommentWithGemini Map.empty rejecting_service [''hello''] [] =
     (Inl ServiceError, [[''hello'']]) \<and>
   malformed_service [''hello''] = Resolved (Some ''not json'') \<and>
   processCommentWithGemini Map.empty malformed_service [''hello''] [] =
     (Inl SyntaxError, [[''hello'']]) \<and>
   empty_body_service [''hello''] = Resolved None \<and>
   processCommentWithGemini Map.empty empty_body_service [''hello''] [] =
     (Inr (array_of []), [[''hello'']]) \<and>
   answering_service [''hello''] = Resolved (Some ''[praise]'') \<and>
   sample_parse ''[praise]'' = Some (array_of [praise_result]) \<and>
   processCommentWithGemini sample_parse answering_service [''hello''] [] =
     (Inr (array_of [praise_result]), [[''hello'']])"
  using
    client_outcomes [where gen = rejecting_service and comments = "[''hello'']"
      and parse = Map.empty and trace = "[]" and body = "''not json''" and results = "NotArray"]
    client_outcomes [where gen = malformed_service and comments = "[''hello'']"
      and parse = Map.empty and trace = "[]" and body = "''not json''" and results = "NotArray"]
    client_outcomes [where gen = empty_body_service and comments = "[''hello'']"
      and parse = Map.empty and trace = "[]" and body = "''not json''" and results = "NotArray"]
    client_outcomes [where gen = answering_service and comments = "[''hello'']"
      and parse = sample_parse and trace = "[]"
      and body = "''[praise]''" and results = "array_of [praise_result]"]
  by (simp add: rejecting_service_def malformed_service_def empty_body_service_def
        answering_service_def sample_parse_def)

text \<open>
  The claim as stated fails for the missing body: the client returns the empty sequence
  where the claim has a failure.
\<close>

theorem empty_body_is_success:
  "empty_body_service [''hello''] = Resolved None \<and>
   processCommentWithGemini Map.empty empty_body_service [''hello''] [] =
     (Inr (array_of []), [[''hello'']])"
  by (simp add: processCommentWithGemini_def empty_body_service_def array_of_def)


section \<open>Export\<close>

lemma csv_read_quoted:
  "csv_read Quoted f r rs (replace_quotes x @ DQ # rest) = csv_read QuoteSeen (rev x @ f) r rs rest"
  by (induction x arbitrary: f) (simp_all add: replace_quotes_def)

lemma replace_quotes_id: "DQ \<notin> set x \<Longrightarrow> replace_quotes x = x"
  by (induction x) (auto simp: replace_quotes_def)

lemma csv_read_plain:
  "DQ \<notin> set x \<Longrightarrow>
   csv_read Quoted f r rs (x @ DQ # rest) = csv_read QuoteSeen (rev x @ f) r rs rest"
  using csv_read_quoted[of f r rs x rest] by (simp add: replace_quotes_id)

lemma COMMA_DQ: "COMMA \<noteq> DQ" "LF \<noteq> DQ" "LF \<noteq> COMMA"
  by (simp_all add: COMMA_def DQ_def LF_def)

lemma csv_read_row:
  assumes "DQ \<notin> set (category row)"
  shows "csv_read FieldStart [] [] rs (csv_row row @ rest) =
         csv_read QuoteSeen (rev (reply row)) [category row, original_text row] rs rest"
  using assms
  by (simp add: csv_row_def csv_read_quoted csv_read_plain COMMA_DQ)

lemma csv_read_rows:
  assumes "\<forall>row\<in>set (x # xs). DQ \<notin> set (category row)"
  shows "csv_read FieldStart [] [] rs (join [LF] (map csv_row (x # xs))) =
         Some (rev rs @ map fields_of (x # xs))"
  using assms
proof (induction xs arbitrary: x rs)
  case Nil
  then show ?case using csv_read_row[of x rs "[]"] by (simp add: fields_of_def)
next
  case (Cons y ys)
  have "csv_read FieldStart [] [] rs (join [LF] (map csv_row (x # y # ys))) =
        csv_read FieldStart [] [] rs (csv_row x @ LF # join [LF] (map csv_row (y # ys)))"
    by simp
  also have "\<dots> = csv_read QuoteSeen (rev (reply x)) [category x, original_text x] rs
                     (LF # join [LF] (map csv_row (y # ys)))"
    using Cons.prems by (simp add: csv_read_row)
  also have "\<dots> = csv_read FieldStart [] [] (fields_of x # rs) (join [LF] (map csv_row (y # ys)))"
    by (simp add: COMMA_DQ fields_of_def)
  also have "\<dots> = Some (rev (fields_of x # rs) @ map fields_of (y # ys))"
    using Cons.prems by (intro Cons.IH) simp
  finally show ?case by simp
qed

lemma csv_read_header:
  "csv_read FieldStart [] [] [] (join [COMMA] headers @ LF # rest) =
   csv_read FieldStart [] [] [headers] rest"
  by (simp add: headers_def COMMA_def DQ_def LF_def)

lemma export_round_trip:
  assumes "rows \<noteq> []" and "\<forall>row\<in>set rows. DQ \<notin> set (category row)"
  shows "parse_csv (csvContent rows) = Some (headers # map fields_of rows)"
proof -
  obtain x xs where rows: "rows = x # xs" using assms(1) by (cases rows) auto
  have "csvContent rows = join [COMMA] headers @ LF # join [LF] (map csv_row (x # xs))"
    by (simp add: csvContent_def rows)
  then show ?thesis
    using csv_read_rows[of x xs "[headers]"] assms(2)
    by (simp add: parse_csv_def csv_read_header rows)
qed

lemma double_quotes_replace: "replace_quotes s = double_quotes s"
  by (induction s) (simp_all add: replace_quotes_def)

lemma loaded_state_data: "batchData loaded_state = array_of [praise_result, threat_result]"
  by (simp add: loaded_state_def)

lemma loaded_state_categories:
  "\<forall>row\<in>set [praise_result, threat_result]. DQ \<notin> set (category row)"
  by (simp add: praise_result_def threat_result_def DQ_def)

lemma csvContent_spec_export:
  assumes "\<forall>row\<in>set rows. DQ \<notin> set (category row)"
  shows "csvContent rows = spec_export rows"
proof -
  have row: "csv_row row = spec_row row" if "DQ \<notin> set (category row)" for row
    using that replace_quotes_id[of "category row"]
    by (simp add: csv_row_def spec_row_def enclose_def double_quotes_replace[symmetric])
  have m: "map csv_row rows = map spec_row rows"
    using assms by (simp add: row)
  have hdr: "join [COMMA] headers = ''Original Comment,Category,Reply Suggestion''"
    by (simp add: headers_def COMMA_def)
  show ?thesis
    unfolding csvContent_def spec_export_def hdr m ..
qed

lemma handleDownloadCSV_rows:
  assumes "batchData s = array_of rows" and "rows \<noteq> []"
  shows "handleDownloadCSV s =
           Inr (s\<lparr>downloads := downloads s @
                  [(''categorized_comments.csv'', csvContent rows,
                    ''text/csv;charset=utf-8;'')]\<rparr>)"
  using assms by (simp add: handleDownloadCSV_def array_of_def those_map_Some)

lemma filteredBatchData_rows:
  assumes "batchData s = array_of rows" and "filterCategory s \<noteq> ''all''"
  shows "filteredBatchData s =
           Inr (array_of (filter (\<lambda>item. category item = filterCategory s) rows))"
  using assms by (simp add: filteredBatchData_def rows_of_array_of)

lemma two_rows_not_one:
  "spec_export [praise_result, threat_result] \<noteq> spec_export [threat_result]"
  by code_simp

text \<open>
  Claim C6, as the code has it. When a sequence of results is loaded that is not empty
  and in which no category contains a double quote, the export is the header row
  \<^verbatim>\<open>Original Comment,Category,Reply Suggestion\<close> followed by one row per loaded result,
  every field enclosed in double quotes with embedded double quotes doubled. The filter
  selection has no part in it: the same file is produced under every selector. Read back
  as comma-separated text, the file gives the header and the three values of every
  loaded result.
\<close>

theorem export_all_loaded_rows:
  assumes "batchData s = array_of rows" and "rows \<noteq> []"
    and "\<forall>row\<in>set rows. DQ \<notin> set (category row)"
  shows "handleDownloadCSV s =
           Inr (s\<lparr>downloads := downloads s @
                  [(''categorized_comments.csv'', spec_export rows,
                    ''text/csv;charset=utf-8;'')]\<rparr>) \<and>
         handleDownloadCSV (s\<lparr>filterCategory := selector\<rparr>) =
           Inr (s\<lparr>filterCategory := selector,
                  downloads := downloads s @
                  [(''categorized_comments.csv'', spec_export rows,
                    ''text/csv;charset=utf-8;'')]\<rparr>) \<and>
         parse_csv (spec_export rows) = Some (headers # map fields_of rows)"
proof -
  note content = csvContent_spec_export[OF assms(3)]
  have a: "handleDownloadCSV s =
           Inr (s\<lparr>downloads := downloads s @
                  [(''categorized_comments.csv'', spec_export rows,
                    ''text/csv;charset=utf-8;'')]\<rparr>)"
    using handleDownloadCSV_rows[OF assms(1) assms(2)] by (simp only: content)
  have "batchData (s\<lparr>filterCategory := selector\<rparr>) = array_of rows"
    using assms(1) by simp
  from handleDownloadCSV_rows[OF this assms(2)]
  have b: "handleDownloadCSV (s\<lparr>filterCategory := selector\<rparr>) =
           Inr (s\<lparr>filterCategory := selector,
                  downloads := downloads s @
                  [(''categorized_comments.csv'', spec_export rows,
                    ''text/csv;charset=utf-8;'')]\<rparr>)"
    by (simp add: content)
  have c: "parse_csv (spec_export rows) = Some (headers # map fields_of rows)"
    using export_round_trip[OF assms(2) assms(3)] by (simp only: content)
  from a b c show ?thesis by (intro conjI)
qed

theorem export_all_loaded_rows_witness:
  "batchData loaded_state = array_of [praise_result, threat_result] \<and>
   [praise_result, threat_result] \<noteq> [] \<and>
   handleDownloadCSV (loaded_state\<lparr>filterCategory := ''threat''\<rparr>) =
     Inr (loaded_state\<lparr>filterCategory := ''threat'',
            downloads := downloads loaded_state @
              [(''categorized_comments.csv'', spec_export [praise_result, threat_result],
                ''text/csv;charset=utf-8;'')]\<rparr>) \<and>
   parse_csv (spec_export [praise_result, threat_result]) =
     Some [headers, fields_of praise_result, fields_of threat_result]"
proof -
  have h: "[praise_result, threat_result] \<noteq> []" by simp
  from export_all_loaded_rows [OF loaded_state_data h loaded_state_categories, of "''threat''"]
  have "handleDownloadCSV (loaded_state\<lparr>filterCategory := ''threat''\<rparr>) =
     Inr (loaded_state\<lparr>filterCategory := ''threat'',
            downloads := downloads loaded_state @
              [(''categorized_comments.csv'', spec_export [praise_result, threat_result],
                ''text/csv;charset=utf-8;'')]\<rparr>) \<and>
   parse_csv (spec_export [praise_result, threat_result]) =
     Some [headers, fields_of praise_result, fields_of threat_result]"
    by simp
  with loaded_state_data h show ?thesis by (intro conjI) (erule conjunct1 conjunct2 | assumption)+
qed

text \<open>
  The claim as stated fails where a filter is active: with the selector \<^verbatim>\<open>threat\<close> the
  filtered view has one entry, and the export still has a row for each of the two loaded
  results.
\<close>

theorem export_ignores_filter:
  "filteredBatchData (loaded_state\<lparr>filterCategory := ''threat''\<rparr>) =
     Inr (array_of [threat_result]) \<and>
   handleDownloadCSV (loaded_state\<lparr>filterCategory := ''threat''\<rparr>) =
     Inr (loaded_state\<lparr>filterCategory := ''threat'',
            downloads :=
              [(''categorized_comments.csv'', spec_export [praise_result, threat_result],
                ''text/csv;charset=utf-8;'')]\<rparr>) \<and>
   spec_export [praise_result, threat_result] \<noteq> spec_export [threat_result]"
proof -
  have d: "batchData (loaded_state\<lparr>filterCategory := ''threat''\<rparr>) =
      array_of [praise_result, threat_result]"
    by (simp add: loaded_state_data)
  have a: "filteredBatchData (loaded_state\<lparr>filterCategory := ''threat''\<rparr>) =
      Inr (array_of [threat_result])"
    using filteredBatchData_rows[OF d] by (simp add: praise_result_def threat_result_def)
  have b: "handleDownloadCSV (loaded_state\<lparr>filterCategory := ''threat''\<rparr>) =
     Inr (loaded_state\<lparr>filterCategory := ''threat'',
            downloads :=
              [(''categorized_comments.csv'', spec_export [praise_result, threat_result],
                ''text/csv;charset=utf-8;'')]\<rparr>)"
    using handleDownloadCSV_rows[OF d] csvContent_spec_export[OF loaded_state_categories]
    by (simp add: loaded_state_def initial_state_def)
  from a b two_rows_not_one show ?thesis by (intro conjI)
qed

text \<open>
  Claim C7 at a result whose category contains a double quote. The category is written
  between quotes as it is, so the exported row reads back as four fields and the category
  and the reply of the result are not recovered.
\<close>

theorem export_round_trip_breaks_on_quote_in_category:
  "fields_of quote_in_category = [''Nice'', ''a'' @ [DQ, COMMA, DQ] @ ''b'', ''Thanks''] \<and>
   parse_csv (csvContent [quote_in_category]) = Some [headers, [''Nice'', ''a'', ''b'', ''Thanks'']]"
  by code_simp


section \<open>Aggregation\<close>

lemma stats_example:
  "calculateStats [praise_result, praise_result, threat_result] =
     [\<lparr>stat_category = ''praise'', count = Num 2\<rparr>, \<lparr>stat_category = ''threat'', count = Num 1\<rparr>]"
  by code_simp

text \<open>
  What \<^verbatim>\<open>calculateStats\<close> does on every input, and on the inputs where no category is
  named like a member of \<^verbatim>\<open>Object.prototype\<close>: the output is in descending order of
  count always; on those inputs it holds exactly the categories that occur, each once
  and with its number of occurrences, and the counts add up to the number of results.
\<close>

lemma counts0:
  "foldl (\<lambda>counts c. set_prop counts c (Num 0)) [] CATEGORIES = map (\<lambda>c. (c, Num 0)) CATEGORIES"
  by (simp add: CATEGORIES_def set_prop_def)

lemma proto_in_keys: "''__proto__'' \<in> set object_prototype_keys"
  by (simp add: object_prototype_keys_def)

lemma count_item_safe:
  assumes "category item \<notin> set object_prototype_keys" and "NaN \<notin> snd ` set cs"
  shows "count_item cs item = AList.update (category item) (Num (Suc (occ cs (category item)))) cs"
proof -
  have ne: "category item \<noteq> ''__proto__''"
    using assms(1) proto_in_keys by auto
  show ?thesis
  proof (cases "map_of cs (category item)")
    case None
    then show ?thesis
      using assms(1) ne
      by (simp add: count_item_def get_prop_def set_prop_def occ_def Let_def)
  next
    case (Some v)
    then have "(category item, v) \<in> set cs" by (rule map_of_SomeD)
    then have "v \<noteq> NaN" using assms(2) by force
    then obtain n where "v = Num n" by (cases v) auto
    then show ?thesis
      using Some assms(1) ne
      by (simp add: count_item_def get_prop_def set_prop_def occ_def Let_def)
  qed
qed

lemma update_values: "snd ` set (AList.update k v al) \<subseteq> insert v (snd ` set al)"
  by (induction al) auto

lemma total_update:
  "distinct (map fst al) \<Longrightarrow>
   total (AList.update k (Num (Suc (occ al k))) al) = Suc (total al)"
proof (induction al)
  case Nil
  then show ?case by (simp add: total_def occ_def)
next
  case (Cons p ps)
  show ?case
  proof (cases "fst p = k")
    case True
    then show ?thesis by (cases p) (simp add: total_def occ_def)
  next
    case False
    then have "occ (p # ps) k = occ ps k" by (cases p) (simp add: occ_def)
    with Cons False show ?thesis by (simp add: total_def)
  qed
qed

lemma occ_update:
  "occ (AList.update k (Num n) al) k' = (if k' = k then n else occ al k')"
  by (simp add: occ_def update_conv')

lemma fold_count_safe:
  assumes "\<forall>item\<in>set data. category item \<notin> set object_prototype_keys"
    and "NaN \<notin> snd ` set cs" and "distinct (map fst cs)"
  shows "NaN \<notin> snd ` set (foldl count_item cs data) \<and>
         distinct (map fst (foldl count_item cs data)) \<and>
         total (foldl count_item cs data) = total cs + length data \<and>
         (\<forall>k. occ (foldl count_item cs data) k = occ cs k + count_list (map category data) k) \<and>
         set (map fst (foldl count_item cs data)) = set (map fst cs) \<union> category ` set data"
  using assms
proof (induction data arbitrary: cs)
  case Nil
  then show ?case by simp
next
  case (Cons item data)
  let ?k = "category item"
  let ?cs = "AList.update ?k (Num (Suc (occ cs ?k))) cs"
  have step: "count_item cs item = ?cs"
    using Cons.prems by (intro count_item_safe) auto
  have a: "NaN \<notin> snd ` set ?cs" using update_values[of ?k "Num (Suc (occ cs ?k))" cs] Cons.prems(2) by auto
  have b: "distinct (map fst ?cs)" using Cons.prems(3) by (rule distinct_update)
  have c: "\<forall>item\<in>set data. category item \<notin> set object_prototype_keys" using Cons.prems(1) by simp
  note IH = Cons.IH[OF c a b]
  have t: "total ?cs = Suc (total cs)" using Cons.prems(3) by (rule total_update)
  have d: "set (map fst ?cs) = insert ?k (set (map fst cs))"
    using dom_update[of ?k _ cs] by auto
  have f: "foldl count_item cs (item # data) = foldl count_item ?cs data"
    by (simp add: step)
  have 1: "NaN \<notin> snd ` set (foldl count_item cs (item # data))"
    using IH unfolding f by blast
  have 2: "distinct (map fst (foldl count_item cs (item # data)))"
    using IH unfolding f by blast
  have 3: "total (foldl count_item cs (item # data)) = total cs + length (item # data)"
    using IH t unfolding f by simp
  have 4: "\<forall>k. occ (foldl count_item cs (item # data)) k =
             occ cs k + count_list (map category (item # data)) k"
    using IH unfolding f by (simp add: occ_update)
  have 5: "set (map fst (foldl count_item cs (item # data))) =
             set (map fst cs) \<union> category ` set (item # data)"
    using IH d unfolding f by auto
  from 1 2 3 4 5 show ?case by (intro conjI)
qed


lemma counts0_good:
  "NaN \<notin> snd ` set (map (\<lambda>c. (c, Num 0)) CATEGORIES)"
  "distinct (map fst (map (\<lambda>c. (c, Num 0)) CATEGORIES))"
  "total (map (\<lambda>c. (c, Num 0)) CATEGORIES) = 0"
  "occ (map (\<lambda>c. (c, Num 0)) CATEGORIES) k = 0"
  "set (map fst (map (\<lambda>c. (c, Num 0)) CATEGORIES)) = set CATEGORIES"
proof -
  show "NaN \<notin> snd ` set (map (\<lambda>c. (c, Num 0)) CATEGORIES)" by auto
  show "distinct (map fst (map (\<lambda>c. (c, Num 0)) CATEGORIES))"
    by (simp add: CATEGORIES_def)
  show "total (map (\<lambda>c. (c, Num 0)) CATEGORIES) = 0"
    by (simp add: total_def comp_def)
  show "occ (map (\<lambda>c. (c, Num 0)) CATEGORIES) k = 0"
    by (auto simp add: occ_def map_of_map_restrict restrict_map_def split: option.splits)
  show "set (map fst (map (\<lambda>c. (c, Num 0)) CATEGORIES)) = set CATEGORIES"
    by (simp add: comp_def)
qed

lemma nat_own_value: "nat_of_num (own_value cs k) = occ cs k"
  by (simp add: own_value_def occ_def split: option.splits)

lemma own_value_Num:
  assumes "NaN \<notin> snd ` set cs" and "k \<in> fst ` set cs"
  shows "own_value cs k = Num (occ cs k)"
proof -
  from assms(2) obtain v where "map_of cs k = Some v"
    by (metis weak_map_of_SomeI not_None_eq map_of_eq_None_iff)
  moreover from this have "(k, v) \<in> set cs" by (rule map_of_SomeD)
  then have "v \<noteq> NaN" using assms(1) by force
  ultimately show ?thesis by (cases v) (simp_all add: own_value_def occ_def)
qed

lemma sum_insort_key:
  "sum_list (map f (insort_key g x xs)) = (f x :: nat) + sum_list (map f xs)"
  by (induction xs) simp_all

lemma sum_sort_key: "sum_list (map f (sort_key g xs)) = (sum_list (map f xs) :: nat)"
  by (induction xs) (simp_all add: sum_insort_key)

lemma sum_partition:
  "sum_list (map f (filter P xs)) + sum_list (map f (filter (\<lambda>x. \<not> P x) xs)) =
   (sum_list (map f xs) :: nat)"
  by (induction xs) simp_all

lemma sum_object_keys:
  "sum_list (map f (object_keys cs)) = (sum_list (map f (map fst cs)) :: nat)"
  using sum_partition[of f is_array_index "map fst cs"]
  by (simp add: object_keys_def Let_def sum_sort_key)

lemma set_object_keys: "set (object_keys cs) = fst ` set cs"
  by (auto simp add: object_keys_def Let_def)

lemma distinct_object_keys: "distinct (map fst cs) \<Longrightarrow> distinct (object_keys cs)"
  by (auto simp add: object_keys_def Let_def)

lemma total_occ:
  assumes "distinct (map fst cs)"
  shows "sum_list (map (occ cs) (map fst cs)) = total cs"
proof -
  have "occ cs (fst e) = nat_of_num (snd e)" if "e \<in> set cs" for e
  proof -
    have "map_of cs (fst e) = Some (snd e)"
      using map_of_is_SomeI[OF assms, of "fst e" "snd e"] that by simp
    then show ?thesis by (simp add: occ_def)
  qed
  then have "map (occ cs) (map fst cs) = map (\<lambda>e. nat_of_num (snd e)) cs" by simp
  then show ?thesis by (simp only: total_def)
qed

lemma count_sum_filter: "count_sum (filter (\<lambda>x. gt_zero (count x)) xs) = count_sum xs"
proof (induction xs)
  case Nil
  then show ?case by simp
next
  case (Cons x xs)
  have "nat_of_num (count x) = 0" if "\<not> gt_zero (count x)"
    using that by (cases "count x") simp_all
  with Cons show ?case by (simp add: count_sum_def)
qed

lemma count_sum_insert:
  "count_sum (insert_sorted cmp x xs) = nat_of_num (count x) + count_sum xs"
  by (induction xs) (simp_all add: count_sum_def)

lemma count_sum_sort: "count_sum (sort_js cmp xs) = count_sum xs"
  by (induction xs) (simp_all add: sort_js_def count_sum_insert, simp add: count_sum_def)

lemma set_insert_sorted: "set (insert_sorted cmp x xs) = insert x (set xs)"
  by (induction xs) auto

lemma set_sort_js: "set (sort_js cmp xs) = set xs"
  by (induction xs) (simp_all add: sort_js_def set_insert_sorted)

lemma distinct_insert_sorted:
  "distinct (map f (insert_sorted cmp x xs)) \<longleftrightarrow> f x \<notin> f ` set xs \<and> distinct (map f xs)"
  by (induction xs) (auto simp add: set_insert_sorted)

lemma distinct_sort_js: "distinct (map f (sort_js cmp xs)) \<longleftrightarrow> distinct (map f xs)"
proof (induction xs)
  case Nil
  then show ?case by (simp add: sort_js_def)
next
  case (Cons x xs)
  have "sort_js cmp (x # xs) = insert_sorted cmp x (sort_js cmp xs)" by (simp add: sort_js_def)
  with Cons show ?case by (simp add: distinct_insert_sorted set_sort_js)
qed

lemma compare_desc_le:
  assumes "gt_zero (count x)" and "gt_zero (count y)"
  shows "compare_desc x y \<le> 0 \<longleftrightarrow> nat_of_num (count y) \<le> nat_of_num (count x)"
  using assms by (cases "count x"; cases "count y") (simp_all add: compare_desc_def)

lemma sorted_insert_sorted:
  assumes "sorted_wrt (\<lambda>a b. nat_of_num (count b) \<le> nat_of_num (count a)) xs"
    and "gt_zero (count x)" and "\<forall>y\<in>set xs. gt_zero (count y)"
  shows "sorted_wrt (\<lambda>a b. nat_of_num (count b) \<le> nat_of_num (count a))
           (insert_sorted compare_desc x xs)"
  using assms
proof (induction xs)
  case Nil
  then show ?case by simp
next
  case (Cons y ys)
  show ?case
  proof (cases "compare_desc x y \<le> 0")
    case True
    then have "nat_of_num (count y) \<le> nat_of_num (count x)"
      using compare_desc_le[of x y] Cons.prems by simp
    with True Cons.prems show ?thesis by (auto intro: order_trans)
  next
    case False
    then have "\<not> nat_of_num (count y) \<le> nat_of_num (count x)"
      using compare_desc_le[of x y] Cons.prems by simp
    with False Cons show ?thesis by (auto simp add: set_insert_sorted)
  qed
qed

lemma sorted_sort_js:
  assumes "\<forall>y\<in>set xs. gt_zero (count y)"
  shows "sorted_wrt (\<lambda>a b. nat_of_num (count b) \<le> nat_of_num (count a))
           (sort_js compare_desc xs)"
  using assms
proof (induction xs)
  case Nil
  then show ?case by (simp add: sort_js_def)
next
  case (Cons x xs)
  have "sort_js compare_desc (x # xs) = insert_sorted compare_desc x (sort_js compare_desc xs)"
    by (simp add: sort_js_def)
  with Cons show ?case by (simp add: sorted_insert_sorted set_sort_js)
qed

lemma stats_sorted_descending:
  "sorted_wrt (\<lambda>a b. nat_of_num (count b) \<le> nat_of_num (count a)) (calculateStats data)"
  by (simp add: calculateStats_def Let_def sorted_sort_js)

lemma stats_sum_without_inherited_keys:
  assumes "\<forall>item\<in>set data. category item \<notin> set object_prototype_keys"
  shows "count_sum (calculateStats data) = length data"
proof -
  let ?c0 = "map (\<lambda>c. (c, Num 0)) CATEGORIES"
  let ?cs = "foldl count_item ?c0 data"
  note inv = fold_count_safe[OF assms counts0_good(1) counts0_good(2)]
  have "count_sum (calculateStats data) =
        count_sum (map (\<lambda>k. \<lparr>stat_category = k, count = own_value ?cs k\<rparr>) (object_keys ?cs))"
    by (simp add: calculateStats_def Let_def counts0 count_sum_sort count_sum_filter)
  also have "\<dots> = sum_list (map (occ ?cs) (object_keys ?cs))"
    by (simp add: count_sum_def comp_def nat_own_value)
  also have "\<dots> = sum_list (map (occ ?cs) (map fst ?cs))"
    by (rule sum_object_keys)
  also have "\<dots> = total ?cs"
    using inv by (intro total_occ) blast
  also have "\<dots> = length data"
    using inv by (simp add: counts0_good(3))
  finally show ?thesis .
qed

lemma stats_entries_without_inherited_keys:
  assumes "\<forall>item\<in>set data. category item \<notin> set object_prototype_keys"
  shows "set (calculateStats data) =
           {\<lparr>stat_category = k, count = Num (count_list (map category data) k)\<rparr> |k.
              0 < count_list (map category data) k}"
    and "distinct (map stat_category (calculateStats data))"
proof -
  let ?c0 = "map (\<lambda>c. (c, Num 0)) CATEGORIES"
  let ?cs = "foldl count_item ?c0 data"
  let ?mk = "\<lambda>k. \<lparr>stat_category = k, count = own_value ?cs k\<rparr>"
  note inv = fold_count_safe[OF assms counts0_good(1) counts0_good(2)]
  have nan: "NaN \<notin> snd ` set ?cs" and dist: "distinct (map fst ?cs)"
    and occ: "\<And>k. occ ?cs k = count_list (map category data) k"
    and keys: "fst ` set ?cs = set CATEGORIES \<union> category ` set data"
    using inv by (auto simp add: counts0_good(4))
  have stats: "calculateStats data =
      sort_js compare_desc (filter (\<lambda>x. gt_zero (count x)) (map ?mk (object_keys ?cs)))"
    by (simp add: calculateStats_def Let_def counts0)
  have val: "own_value ?cs k = Num (count_list (map category data) k)" if "k \<in> fst ` set ?cs" for k
    using own_value_Num[OF nan that] by (simp add: occ)
  have pos: "k \<in> fst ` set ?cs" if "0 < count_list (map category data) k" for k
  proof -
    from that have "count_list (map category data) k \<noteq> 0" by simp
    then have "k \<in> set (map category data)" by (simp only: count_list_0_iff not_not)
    then show ?thesis using keys by auto
  qed
  show "set (calculateStats data) =
           {\<lparr>stat_category = k, count = Num (count_list (map category data) k)\<rparr> |k.
              0 < count_list (map category data) k}"
    unfolding stats set_sort_js
    using val pos by (auto simp add: set_object_keys)
  have "distinct (map stat_category (filter (\<lambda>x. gt_zero (count x)) (map ?mk (object_keys ?cs))))"
    using distinct_object_keys[OF dist]
    by (simp add: distinct_map_filter comp_def)
  then show "distinct (map stat_category (calculateStats data))"
    unfolding stats by (simp add: distinct_sort_js)
qed

text \<open>
  Claim C4 at a result whose category is \<^verbatim>\<open>constructor\<close>. The key is found on
  \<^verbatim>\<open>Object.prototype\<close>, the first branch turns it into \<^verbatim>\<open>NaN\<close>, and the entry is
  filtered out: the result is dropped, where an unknown category of any other name gets
  its own counter.
\<close>

theorem stats_drop_prototype_key:
  "category constructor_result = ''constructor'' \<and>
   calculateStats [constructor_result] = [] \<and>
   calculateStats [other_result] = [\<lparr>stat_category = ''other'', count = Num 1\<rparr>]"
  by code_simp

text \<open>
  Claim C10 at two results, one of category \<^verbatim>\<open>toString\<close>: the counts of the output add up
  to 1, the input has 2 results.
\<close>

theorem stats_sum_short_of_length:
  "calculateStats [praise_result, toString_result] =
     [\<lparr>stat_category = ''praise'', count = Num 1\<rparr>] \<and>
   count_sum (calculateStats [praise_result, toString_result]) = 1 \<and>
   length [praise_result, toString_result] = 2"
  by code_simp


end
